theory Spec2Isabelle
  imports Main "HOL-Library.Sublist"
begin

section \<open>Python strings\<close>

text \<open>
  The script \<^verbatim>\<open>scripts/batch_export_skills.py\<close> works on Python \<^verbatim>\<open>str\<close> values, which are
  sequences of Unicode code points. A code point is a natural number here, so that the
  white space and the line boundaries of Python beyond ASCII are part of the model.
  \<open>lit\<close> turns a literal of the source into its code points.
\<close>

type_synonym pystr = "nat list"

definition lit :: "string \<Rightarrow> pystr" where
  "lit s = map of_char s"

text \<open>
  \<^verbatim>\<open>str.isspace\<close> for one code point: the characters that \<^verbatim>\<open>str.strip()\<close> and
  \<^verbatim>\<open>str.split()\<close> (both without argument) treat as white space. These are TAB, LF, VT, FF,
  CR, FS, GS, RS, US, SPACE, NEL (0x85), NBSP (0xA0), 0x1680, 0x2000 to 0x200A, 0x2028,
  0x2029, 0x202F, 0x205F and 0x3000.
\<close>

definition isspace :: "nat \<Rightarrow> bool" where
  "isspace c \<longleftrightarrow>
     c \<in> {9, 10, 11, 12, 13, 28, 29, 30, 31, 32, 133, 160, 5760, 8232, 8233, 8239, 8287, 12288}
     \<or> (8192 \<le> c \<and> c \<le> 8202)"

text \<open>
  The line boundaries of \<^verbatim>\<open>str.splitlines()\<close>: LF, VT, FF, CR, FS, GS, RS, NEL, 0x2028 and
  0x2029; CR followed by LF is one boundary.
\<close>

definition is_linebreak :: "nat \<Rightarrow> bool" where
  "is_linebreak c \<longleftrightarrow> c \<in> {10, 11, 12, 13, 28, 29, 30, 133, 8232, 8233}"

text \<open>
  \<^verbatim>\<open>text.splitlines()\<close>: the lines without their boundaries. A boundary ends the current
  line even when that line is empty; what follows the last boundary is a line only when
  it is not empty. \<open>cur\<close> is the line read so far.
\<close>

fun splitlines_from :: "pystr \<Rightarrow> pystr \<Rightarrow> pystr list" where
  "splitlines_from cur [] = (if cur = [] then [] else [cur])"
| "splitlines_from cur [c] =
     (if is_linebreak c then [cur] else [cur @ [c]])"
| "splitlines_from cur (c # d # ds) =
     (if c = 13 \<and> d = 10 then cur # splitlines_from [] ds
      else if is_linebreak c then cur # splitlines_from [] (d # ds)
      else splitlines_from (cur @ [c]) (d # ds))"

definition splitlines :: "pystr \<Rightarrow> pystr list" where
  "splitlines text = splitlines_from [] text"

text \<open>\<^verbatim>\<open>line.strip()\<close>: white space removed at both ends.\<close>

definition strip :: "pystr \<Rightarrow> pystr" where
  "strip s = rev (dropWhile isspace (rev (dropWhile isspace s)))"

text \<open>
  \<^verbatim>\<open>line.split()\<close>: the maximal runs of characters that are not white space, in order;
  never an empty token. \<open>cur\<close> is the token read so far.
\<close>

fun split_from :: "pystr \<Rightarrow> pystr \<Rightarrow> pystr list" where
  "split_from cur [] = (if cur = [] then [] else [cur])"
| "split_from cur (c # cs) =
     (if isspace c then (if cur = [] then split_from [] cs else cur # split_from [] cs)
      else split_from (cur @ [c]) cs)"

definition split :: "pystr \<Rightarrow> pystr list" where
  "split s = split_from [] s"

text \<open>\<^verbatim>\<open>s.startswith(p)\<close>.\<close>

definition startswith :: "pystr \<Rightarrow> pystr \<Rightarrow> bool" where
  "startswith s p \<longleftrightarrow> take (length p) s = p"

text \<open>\<^verbatim>\<open>str(n)\<close> for a length: the decimal digits, no sign, no leading zero.\<close>

function str_of_nat :: "nat \<Rightarrow> pystr" where
  "str_of_nat n = (if n < 10 then [48 + n] else str_of_nat (n div 10) @ [48 + n mod 10])"
  by pat_completeness auto
termination
  by (relation "measure id") auto

declare str_of_nat.simps [simp del]

section \<open>The loop over the listing (lines 22 to 45)\<close>

text \<open>
  One pass of the loop body up to line 42: the line is trimmed; a blank line, a line
  that starts with \<^verbatim>\<open>Cratos Skills\<close>, a line that starts with five dashes and a line of
  fewer than four tokens take \<^verbatim>\<open>continue\<close> (\<open>None\<close>); any other line binds
  \<^verbatim>\<open>name = parts[1]\<close> and \<^verbatim>\<open>origin = parts[3]\<close>. The indices are in range, since
  \<open>length parts \<ge> 4\<close> there.
\<close>

datatype SkillRecord = SkillRecord (name: pystr) (origin: pystr)

definition parse_line :: "pystr \<Rightarrow> SkillRecord option" where
  "parse_line raw =
     (let line = strip raw in
      if line = [] then None
      else if startswith line (lit ''Cratos Skills'') then None
      else if startswith line (lit ''-----'') then None
      else
        let parts = split line in
        if length parts < 4 then None
        else Some (SkillRecord (parts ! 1) (parts ! 3)))"

text \<open>
  Lines 44 and 45, on the list \<^verbatim>\<open>skills_to_export\<close>: the name is appended when the origin
  is the string \<^verbatim>\<open>built\<close>.
\<close>

definition append_if_built :: "SkillRecord \<Rightarrow> pystr list \<Rightarrow> pystr list" where
  "append_if_built r acc = (if origin r = lit ''built'' then acc @ [name r] else acc)"

text \<open>The loop of lines 24 to 45 with its accumulator \<^verbatim>\<open>skills_to_export\<close>.\<close>

fun collect_skills :: "pystr list \<Rightarrow> pystr list \<Rightarrow> pystr list" where
  "collect_skills [] acc = acc"
| "collect_skills (line # rest) acc =
     (case parse_line line of
        None \<Rightarrow> collect_skills rest acc
      | Some r \<Rightarrow> collect_skills rest (append_if_built r acc))"

text \<open>Lines 22 to 45 on the captured standard output of the list command.\<close>

definition skills_to_export :: "pystr \<Rightarrow> pystr list" where
  "skills_to_export text = collect_skills (splitlines text) []"

text \<open>
  The records that the loop binds on a sequence of lines, in the order of the lines:
  what the parsing steps of the loop produce before lines 44 and 45 select.
\<close>

definition parse_records :: "pystr list \<Rightarrow> SkillRecord list" where
  "parse_records ls = List.map_filter parse_line ls"

text \<open>The record of a row of at least four tokens: the second and the fourth token.\<close>

definition row_record :: "pystr \<Rightarrow> SkillRecord" where
  "row_record raw = (let parts = split (strip raw) in SkillRecord (parts ! 1) (parts ! 3))"

text \<open>
  The words of the specification: a separator is a line composed solely of dash
  characters (code point 45), and a well-formed data row is a line whose trimmed form is
  not empty, does not start with the header prefix, is not such a separator and has at
  least four tokens.
\<close>

definition dash_separator :: "pystr \<Rightarrow> bool" where
  "dash_separator line \<longleftrightarrow> line \<noteq> [] \<and> list_all (\<lambda>c. c = 45) line"

definition well_formed_row :: "pystr \<Rightarrow> bool" where
  "well_formed_row raw \<longleftrightarrow>
     strip raw \<noteq> [] \<and> \<not> startswith (strip raw) (lit ''Cratos Skills'')
     \<and> \<not> dash_separator (strip raw) \<and> 4 \<le> length (split (strip raw))"

text \<open>
  The rows that pass the four tests of the loop: the third test of the code is on the
  prefix of five dashes, whatever follows it.
\<close>

definition data_row :: "pystr \<Rightarrow> bool" where
  "data_row raw \<longleftrightarrow>
     strip raw \<noteq> [] \<and> \<not> startswith (strip raw) (lit ''Cratos Skills'')
     \<and> \<not> startswith (strip raw) (lit ''-----'') \<and> 4 \<le> length (split (strip raw))"

section \<open>Child processes and the run of the script\<close>

text \<open>
  What a child process does: its exit status and what it writes on its standard output
  and standard error. The child writes bytes; with \<^verbatim>\<open>capture_output=True, text=True\<close> they
  are decoded in the encoding of the locale. \<open>decodes\<close> says whether both streams decode;
  \<open>stdout\<close> and \<open>stderr\<close> are then the decoded texts, the attributes of the object that
  \<^verbatim>\<open>subprocess.run\<close> returns, and they mean nothing otherwise.
\<close>

record CompletedProcess =
  returncode :: int
  stdout :: pystr
  stderr :: pystr
  decodes :: bool

text \<open>
  The world outside the script is a parameter: \<open>env n cmd\<close> is what the child process
  with argument vector \<open>cmd\<close> does when it is the \<open>n\<close>-th child of the run (counted from 0).
  The index lets the same command end differently at different times. A child that
  cannot be started is outside this model.
\<close>

type_synonym argv = "pystr list"

type_synonym proc_env = "nat \<Rightarrow> argv \<Rightarrow> CompletedProcess"

text \<open>
  What the run does that can be seen from outside, in order: a line printed on the
  standard output, and a child process run to its end.
\<close>

datatype event = Print pystr | Run argv

fun runs :: "event list \<Rightarrow> argv list" where
  "runs [] = []"
| "runs (Print s # tr) = runs tr"
| "runs (Run cmd # tr) = cmd # runs tr"

text \<open>
  The exceptions of \<^verbatim>\<open>subprocess.run\<close>: that of \<^verbatim>\<open>check=True\<close> carries the exit status and
  the command; \<^verbatim>\<open>UnicodeDecodeError\<close> is raised when captured output does not decode.
\<close>

datatype exn = CalledProcessError int argv | UnicodeDecodeError

text \<open>
  \<^verbatim>\<open>subprocess.run(cmd, check=..., capture_output=..., text=...)\<close>, where \<open>capture\<close> stands for
  \<^verbatim>\<open>capture_output=True, text=True\<close>. The child runs to its end (one more event). Then
  the captured streams are decoded, which raises when they do not decode; then, with
  \<^verbatim>\<open>check=True\<close>, a non-zero exit status raises; otherwise the result is returned.
\<close>

definition subprocess_run ::
  "proc_env \<Rightarrow> argv \<Rightarrow> bool \<Rightarrow> bool \<Rightarrow> event list
   \<Rightarrow> (exn + CompletedProcess) \<times> event list" where
  "subprocess_run env cmd check capture tr =
     (let result = env (length (runs tr)) cmd; tr' = tr @ [Run cmd]
      in if capture \<and> \<not> decodes result
         then (Inl UnicodeDecodeError, tr')
         else if check \<and> returncode result \<noteq> 0
         then (Inl (CalledProcessError (returncode result) cmd), tr')
         else (Inr result, tr'))"

text \<open>The argument vectors of lines 10, 14 and 51.\<close>

definition build_cmd :: argv where
  "build_cmd = [lit ''uv'', lit ''run'', lit ''cargo'', lit ''build'']"

definition list_cmd :: argv where
  "list_cmd = [lit ''uv'', lit ''run'', lit ''cargo'', lit ''run'', lit ''--bin'', lit ''cratos'',
               lit ''--'', lit ''skill'', lit ''list'', lit ''--active'']"

definition export_cmd :: "pystr \<Rightarrow> argv" where
  "export_cmd skill = [lit ''uv'', lit ''run'', lit ''cargo'', lit ''run'', lit ''--bin'', lit ''cratos'',
                       lit ''--'', lit ''skill'', lit ''export'', lit ''--markdown'', skill]"

text \<open>
  The loop of lines 49 to 52: a progress line, then the export of the skill with
  \<^verbatim>\<open>check=True\<close> and nothing captured; an exception leaves the loop and the function.
\<close>

fun export_loop :: "proc_env \<Rightarrow> pystr list \<Rightarrow> event list \<Rightarrow> (exn + unit) \<times> event list" where
  "export_loop env [] tr = (Inr (), tr)"
| "export_loop env (skill # rest) tr =
     (case subprocess_run env (export_cmd skill) True False
             (tr @ [Print (lit ''Exporting '' @ skill @ lit ''...'')]) of
        (Inl e, tr') \<Rightarrow> (Inl e, tr')
      | (Inr _, tr') \<Rightarrow> export_loop env rest tr')"

text \<open>
  \<^verbatim>\<open>main()\<close>, lines 7 to 54. The result is \<open>Inr ()\<close> when the function returns and \<open>Inl e\<close>
  when the exception \<open>e\<close> leaves it; the second component is everything the run did.
  The build (line 10) and the exports (line 52) check the exit status and capture
  nothing; the list command (line 15) captures its output as text and checks nothing.
\<close>

definition main :: "proc_env \<Rightarrow> (exn + unit) \<times> event list" where
  "main env =
     (case subprocess_run env build_cmd True False [Print (lit ''Building Cratos...'')] of
        (Inl e, tr) \<Rightarrow> (Inl e, tr)
      | (Inr _, tr) \<Rightarrow>
          (case subprocess_run env list_cmd False True
                  (tr @ [Print (lit ''Fetching active skills...'')]) of
             (Inl e, tr) \<Rightarrow> (Inl e, tr)
           | (Inr result, tr) \<Rightarrow>
               if returncode result \<noteq> 0
               then (Inr (), tr @ [Print (lit ''Error listing skills:''), Print (stderr result)])
               else
                 let skills = skills_to_export (stdout result);
                     found = lit ''Found '' @ str_of_nat (length skills) @ lit '' builtin skills to export.''
                 in (case export_loop env skills (tr @ [Print found]) of
                       (Inl e, tr) \<Rightarrow> (Inl e, tr)
                     | (Inr _, tr) \<Rightarrow> (Inr (), tr @ [Print (lit ''Batch export complete.'')]))))"

text \<open>
  Lines 56 and 57 call \<^verbatim>\<open>main()\<close> at the top level. The interpreter ends with exit status 0
  when the call returns; when an exception leaves it, the interpreter prints the
  traceback and ends with exit status 1.
\<close>

definition exit_status :: "(exn + unit) \<Rightarrow> int" where
  "exit_status r = (case r of Inl e \<Rightarrow> 1 | Inr u \<Rightarrow> 0)"

text \<open>
  What \<open>n\<close> exports in a row add to the run: for each skill, in order, the progress line
  and the child process.
\<close>

fun export_events :: "pystr list \<Rightarrow> event list" where
  "export_events [] = []"
| "export_events (skill # rest) =
     Print (lit ''Exporting '' @ skill @ lit ''...'') # Run (export_cmd skill) # export_events rest"

text \<open>
  The arguments that reach the \<^verbatim>\<open>cratos\<close> binary: \<^verbatim>\<open>cargo run\<close> passes on what follows the
  first \<^verbatim>\<open>--\<close> of its command line.
\<close>

definition cratos_args :: "argv \<Rightarrow> argv" where
  "cratos_args cmd = drop 1 (dropWhile (\<lambda>a. a \<noteq> lit ''--'') cmd)"

text \<open>The listing of the end-to-end scenario: five lines, separated by LF.\<close>

definition scenario_listing :: pystr where
  "scenario_listing =
     lit ''Cratos Skills'' @ [10] @ lit ''-----'' @ [10] @ lit ''* alpha core built'' @ [10]
     @ lit ''* beta core custom'' @ [10] @ lit ''* gamma tool built''"

text \<open>
  The events up to the end of the list command when the build succeeds, and the progress
  line of line 47 for \<open>n\<close> selected skills.
\<close>

definition query_events :: "event list" where
  "query_events =
     [Print (lit ''Building Cratos...''), Run build_cmd,
      Print (lit ''Fetching active skills...''), Run list_cmd]"

definition found_line :: "nat \<Rightarrow> pystr" where
  "found_line n = lit ''Found '' @ str_of_nat n @ lit '' builtin skills to export.''"

text \<open>
  Worlds for examples. In \<open>fails_at\<close> the child number \<open>k\<close> of the run ends with exit
  status \<open>status\<close> and every other child with 0; every child writes the texts \<open>out\<close> and
  \<open>err\<close>. In \<open>garbled_at\<close> the exit statuses are the same and the child number \<open>k\<close> writes
  bytes that do not decode.
\<close>

definition fails_at :: "nat \<Rightarrow> int \<Rightarrow> pystr \<Rightarrow> pystr \<Rightarrow> proc_env" where
  "fails_at k status out err n cmd =
     \<lparr>returncode = (if n = k then status else 0), stdout = out, stderr = err,
      decodes = True\<rparr>"

definition garbled_at :: "nat \<Rightarrow> int \<Rightarrow> proc_env" where
  "garbled_at k status n cmd =
     \<lparr>returncode = (if n = k then status else 0), stdout = [], stderr = [],
      decodes = (n \<noteq> k)\<rparr>"

section \<open>Strings, rows and the selection loop: auxiliary facts\<close>

lemma collect_skills_fold:
  "collect_skills ls acc = fold append_if_built (parse_records ls) acc"
  by (induction ls arbitrary: acc) (simp_all add: parse_records_def split: option.splits)

lemma fold_append_if_built:
  "fold append_if_built rs acc = acc @ map name (filter (\<lambda>r. origin r = lit ''built'') rs)"
  by (induction rs arbitrary: acc) (simp_all add: append_if_built_def)

lemma parse_records_append:
  "parse_records (xs @ ys) = parse_records xs @ parse_records ys"
  by (induction xs) (simp_all add: parse_records_def split: option.splits)

lemma split_from_nospace:
  "list_all (\<lambda>c. \<not> isspace c) s \<Longrightarrow> split_from cur s = (if cur @ s = [] then [] else [cur @ s])"
  by (induction s arbitrary: cur) simp_all

lemma split_from_trailing_space:
  "isspace c \<Longrightarrow> split_from cur (s @ [c]) = split_from cur s"
  by (induction s arbitrary: cur) simp_all

lemma split_from_trailing:
  "list_all isspace ws \<Longrightarrow> split_from cur (s @ ws) = split_from cur s"
proof (induction ws arbitrary: s)
  case Nil
  show ?case by simp
next
  case (Cons w ws)
  have "split_from cur (s @ w # ws) = split_from cur ((s @ [w]) @ ws)" by simp
  also have "\<dots> = split_from cur (s @ [w])"
    using Cons.IH [of "s @ [w]"] Cons.prems by simp
  also have "\<dots> = split_from cur s" using Cons.prems by (simp add: split_from_trailing_space)
  finally show ?case .
qed

lemma split_from_leading:
  "split_from [] (dropWhile isspace s) = split_from [] s"
  by (induction s) simp_all

lemma split_strip: "split (strip s) = split s"
proof -
  let ?t = "dropWhile isspace s"
  have "?t = rev (dropWhile isspace (rev ?t)) @ rev (takeWhile isspace (rev ?t))"
    by (metis rev_append rev_rev_ident takeWhile_dropWhile_id)
  moreover have "list_all isspace (rev (takeWhile isspace (rev ?t)))"
    by (simp add: list_all_iff) (meson set_takeWhileD)
  ultimately have "split_from [] ?t = split_from [] (rev (dropWhile isspace (rev ?t)))"
    by (metis split_from_trailing)
  then show ?thesis by (simp add: split_def strip_def split_from_leading)
qed

lemma parse_line_Some_iff:
  "parse_line raw = Some r \<longleftrightarrow> data_row raw \<and> r = row_record raw"
  by (auto simp: parse_line_def data_row_def row_record_def Let_def)

lemma parse_line_None_iff: "parse_line raw = None \<longleftrightarrow> \<not> data_row raw"
  by (auto simp: parse_line_def data_row_def Let_def)

lemma parse_records_filter:
  "parse_records ls = map row_record (filter data_row ls)"
proof (induction ls)
  case Nil
  show ?case by (simp add: parse_records_def)
next
  case (Cons l ls)
  show ?case
  proof (cases "data_row l")
    case True
    then have "parse_line l = Some (row_record l)" by (simp add: parse_line_Some_iff)
    then show ?thesis using Cons True by (simp add: parse_records_def)
  next
    case False
    then have "parse_line l = None" by (simp add: parse_line_None_iff)
    then show ?thesis using Cons False by (simp add: parse_records_def)
  qed
qed

lemma dash_separator_split:
  assumes "dash_separator line"
  shows "split line = [line]"
proof -
  have "list_all (\<lambda>c. \<not> isspace c) line"
    using assms by (auto simp: dash_separator_def list_all_iff isspace_def)
  then show ?thesis using assms by (simp add: split_def split_from_nospace dash_separator_def)
qed

section \<open>The export loop: auxiliary facts\<close>

lemma runs_append: "runs (tr @ tr') = runs tr @ runs tr'"
  by (induction tr rule: runs.induct) simp_all

lemma runs_export_events: "runs (export_events ss) = map export_cmd ss"
  by (induction ss) simp_all

lemma export_loop_head_ok:
  "returncode (env (length (runs tr)) (export_cmd s)) = 0 \<Longrightarrow>
   export_loop env (s # rest) tr = export_loop env rest (tr @ export_events [s])"
  by (simp add: subprocess_run_def runs_append)

lemma export_loop_head_fail:
  "returncode (env (length (runs tr)) (export_cmd s)) \<noteq> 0 \<Longrightarrow>
   export_loop env (s # rest) tr =
     (Inl (CalledProcessError (returncode (env (length (runs tr)) (export_cmd s))) (export_cmd s)),
      tr @ export_events [s])"
  by (simp add: subprocess_run_def runs_append)

lemma export_events_append: "export_events (xs @ ys) = export_events xs @ export_events ys"
  by (induction xs) simp_all

lemma export_loop_prefix_ok:
  "k \<le> length batch \<Longrightarrow>
   (\<And>i. i < k \<Longrightarrow> returncode (env (length (runs tr) + i) (export_cmd (batch ! i))) = 0) \<Longrightarrow>
   export_loop env batch tr = export_loop env (drop k batch) (tr @ export_events (take k batch))"
proof (induction k arbitrary: batch tr)
  case 0
  show ?case by simp
next
  case (Suc k)
  then obtain s rest where b: "batch = s # rest" by (cases batch) auto
  have h0: "returncode (env (length (runs tr)) (export_cmd s)) = 0"
    using Suc.prems(2) [of 0] b by simp
  have hk: "k \<le> length rest" using Suc.prems(1) b by simp
  have hi: "returncode (env (length (runs (tr @ export_events [s])) + i) (export_cmd (rest ! i))) = 0"
    if "i < k" for i
    using Suc.prems(2) [of "Suc i"] that b by (simp add: runs_append)
  have "export_loop env batch tr = export_loop env rest (tr @ export_events [s])"
    using h0 b by (simp only: export_loop_head_ok)
  also have "\<dots> = export_loop env (drop k rest) ((tr @ export_events [s]) @ export_events (take k rest))"
    using Suc.IH [OF hk hi] by blast
  finally show ?case using b by simp
qed

lemma export_loop_all_ok:
  assumes "\<And>i. i < length batch \<Longrightarrow> returncode (env (length (runs tr) + i) (export_cmd (batch ! i))) = 0"
  shows "export_loop env batch tr = (Inr (), tr @ export_events batch)"
  using export_loop_prefix_ok [of "length batch" batch env tr] assms by simp

lemma export_loop_fails_at:
  assumes k: "1 \<le> k" "k \<le> length batch"
    and ok: "\<And>i. Suc i < k \<Longrightarrow> returncode (env (length (runs tr) + i) (export_cmd (batch ! i))) = 0"
    and bad: "returncode (env (length (runs tr) + (k - 1)) (export_cmd (batch ! (k - 1)))) \<noteq> 0"
  shows "export_loop env batch tr =
     (Inl (CalledProcessError (returncode (env (length (runs tr) + (k - 1)) (export_cmd (batch ! (k - 1)))))
            (export_cmd (batch ! (k - 1)))),
      tr @ export_events (take k batch))"
proof -
  let ?j = "k - 1"
  have j: "?j \<le> length batch" "?j < length batch" using k by auto
  have okj: "returncode (env (length (runs tr) + i) (export_cmd (batch ! i))) = 0" if "i < ?j" for i
    using ok [of i] that by simp
  have d: "drop ?j batch = batch ! ?j # drop k batch"
    using j k by (metis Cons_nth_drop_Suc One_nat_def Suc_pred less_eq_Suc_le)
  have t: "take k batch = take ?j batch @ [batch ! ?j]"
    using j k by (metis One_nat_def Suc_pred less_eq_Suc_le take_Suc_conv_app_nth)
  let ?tr = "tr @ export_events (take ?j batch)"
  have len: "length (runs ?tr) = length (runs tr) + ?j"
    using j by (simp add: runs_append runs_export_events)
  have "export_loop env batch tr = export_loop env (batch ! ?j # drop k batch) ?tr"
    using export_loop_prefix_ok [of "k - 1" batch env tr] j(1) okj d by simp
  also have "\<dots> = (Inl (CalledProcessError (returncode (env (length (runs ?tr)) (export_cmd (batch ! ?j))))
            (export_cmd (batch ! ?j))), ?tr @ export_events [batch ! ?j])"
  proof -
    have "returncode (env (length (runs ?tr)) (export_cmd (batch ! ?j))) \<noteq> 0"
      using bad len by simp
    then show ?thesis by (rule export_loop_head_fail)
  qed
  finally show ?thesis using len t by (simp add: export_events_append)
qed

lemma export_loop_shape:
  "\<exists>m \<le> length batch.
     snd (export_loop env batch tr) = tr @ export_events (take m batch)
     \<and> (\<forall>i. Suc i < m \<longrightarrow> returncode (env (length (runs tr) + i) (export_cmd (batch ! i))) = 0)
     \<and> (case fst (export_loop env batch tr) of
          Inr u \<Rightarrow> m = length batch
                 \<and> (\<forall>i < m. returncode (env (length (runs tr) + i) (export_cmd (batch ! i))) = 0)
        | Inl e \<Rightarrow> 0 < m
                 \<and> returncode (env (length (runs tr) + (m - 1)) (export_cmd (batch ! (m - 1)))) \<noteq> 0
                 \<and> e = CalledProcessError
                          (returncode (env (length (runs tr) + (m - 1)) (export_cmd (batch ! (m - 1)))))
                          (export_cmd (batch ! (m - 1))))"
proof (induction batch arbitrary: tr)
  case Nil
  show ?case by simp
next
  case (Cons s rest)
  let ?n = "length (runs tr)"
  show ?case
  proof (cases "returncode (env ?n (export_cmd s)) = 0")
    case False
    have "export_loop env (s # rest) tr =
        (Inl (CalledProcessError (returncode (env ?n (export_cmd s))) (export_cmd s)),
         tr @ export_events [s])"
      using False by (rule export_loop_head_fail)
    then show ?thesis using False by (intro exI [of _ 1]) simp
  next
    case True
    let ?tr = "tr @ export_events [s]"
    have step: "export_loop env (s # rest) tr = export_loop env rest ?tr"
      using True by (rule export_loop_head_ok)
    have n: "length (runs ?tr) = Suc ?n" by (simp add: runs_append)
    from Cons.IH [of ?tr] obtain m where m: "m \<le> length rest"
      and tr': "snd (export_loop env rest ?tr) = ?tr @ export_events (take m rest)"
      and ok: "\<forall>i. Suc i < m \<longrightarrow> returncode (env (Suc ?n + i) (export_cmd (rest ! i))) = 0"
      and res: "case fst (export_loop env rest ?tr) of
          Inr u \<Rightarrow> m = length rest
                 \<and> (\<forall>i < m. returncode (env (Suc ?n + i) (export_cmd (rest ! i))) = 0)
        | Inl e \<Rightarrow> 0 < m
                 \<and> returncode (env (Suc ?n + (m - 1)) (export_cmd (rest ! (m - 1)))) \<noteq> 0
                 \<and> e = CalledProcessError
                          (returncode (env (Suc ?n + (m - 1)) (export_cmd (rest ! (m - 1)))))
                          (export_cmd (rest ! (m - 1)))"
      unfolding n by blast
    have a: "Suc m \<le> length (s # rest)" using m by simp
    have b: "snd (export_loop env (s # rest) tr) = tr @ export_events (take (Suc m) (s # rest))"
      using tr' step by simp
    have c: "returncode (env (?n + i) (export_cmd ((s # rest) ! i))) = 0" if "Suc i < Suc m" for i
    proof (cases i)
      case 0
      then show ?thesis using True by simp
    next
      case (Suc j)
      then show ?thesis using ok that by simp
    qed
    have d: "case fst (export_loop env (s # rest) tr) of
          Inr u \<Rightarrow> Suc m = length (s # rest)
                 \<and> (\<forall>i < Suc m. returncode (env (?n + i) (export_cmd ((s # rest) ! i))) = 0)
        | Inl e \<Rightarrow> 0 < Suc m
                 \<and> returncode (env (?n + (Suc m - 1)) (export_cmd ((s # rest) ! (Suc m - 1)))) \<noteq> 0
                 \<and> e = CalledProcessError
                          (returncode (env (?n + (Suc m - 1)) (export_cmd ((s # rest) ! (Suc m - 1)))))
                          (export_cmd ((s # rest) ! (Suc m - 1)))"
    proof (cases "fst (export_loop env rest ?tr)")
      case (Inr u)
      then have r: "m = length rest"
        "\<forall>i < m. returncode (env (Suc ?n + i) (export_cmd (rest ! i))) = 0"
        using res by simp_all
      have "returncode (env (?n + i) (export_cmd ((s # rest) ! i))) = 0" if "i < Suc m" for i
      proof (cases i)
        case 0
        then show ?thesis using True by simp
      next
        case (Suc j)
        then show ?thesis using r(2) that by simp
      qed
      then show ?thesis using Inr r(1) step by simp
    next
      case (Inl e)
      then have "0 < m" using res by simp
      then obtain j where j: "m = Suc j" by (cases m) auto
      have "returncode (env (Suc ?n + j) (export_cmd (rest ! j))) \<noteq> 0
          \<and> e = CalledProcessError
                 (returncode (env (Suc ?n + j) (export_cmd (rest ! j)))) (export_cmd (rest ! j))"
        using res Inl j by simp
      then show ?thesis using Inl j step by simp
    qed
    show ?thesis using a b c d by blast
  qed
qed

section \<open>The parsing of the listing\<close>

lemma collect_skills_drop_line:
  "parse_line raw = None \<Longrightarrow>
   collect_skills (xs @ raw # ys) acc = collect_skills (xs @ ys) acc"
  by (simp add: collect_skills_fold parse_records_append) (simp add: parse_records_def)

lemma count_list_map_filter:
  "count_list (map f (filter P xs)) y = length (filter (\<lambda>x. f x = y \<and> P x) xs)"
  by (induction xs) simp_all

text \<open>
  Claim C10. A line whose trimmed form begins with five dashes never gives a record and
  adds nothing to the export batch, whatever follows the dashes: the loop over a listing
  with such a line does what it does on the listing without it, also when the line has
  four tokens and the fourth is \<^verbatim>\<open>built\<close>.
\<close>

theorem dash_prefix_never_a_record:
  assumes "startswith (strip raw) (lit ''-----'')"
  shows "parse_line raw = None
    \<and> parse_records (xs @ raw # ys) = parse_records (xs @ ys)
    \<and> collect_skills (xs @ raw # ys) acc = collect_skills (xs @ ys) acc"
proof -
  have n: "parse_line raw = None" using assms by (simp add: parse_line_def Let_def)
  then have "parse_records (xs @ raw # ys) = parse_records (xs @ ys)"
    by (simp add: parse_records_append) (simp add: parse_records_def)
  then show ?thesis using n by (simp add: collect_skills_drop_line)
qed

theorem dash_prefix_never_a_record_witness:
  "startswith (strip (lit ''-----x alpha core built'')) (lit ''-----'')
   \<and> 4 \<le> length (split (strip (lit ''-----x alpha core built'')))
   \<and> split (strip (lit ''-----x alpha core built'')) ! 3 = lit ''built''
   \<and> parse_line (lit ''-----x alpha core built'') = None
   \<and> collect_skills ([lit ''* a b built''] @ lit ''-----x alpha core built'' # []) [] =
       collect_skills ([lit ''* a b built''] @ []) []"
proof -
  have h: "startswith (strip (lit ''-----x alpha core built'')) (lit ''-----'')"
    by (simp add: startswith_def strip_def lit_def isspace_def)
  have t: "4 \<le> length (split (strip (lit ''-----x alpha core built'')))
     \<and> split (strip (lit ''-----x alpha core built'')) ! 3 = lit ''built''"
    by (simp add: strip_def split_def lit_def isspace_def)
  show ?thesis
    using h t dash_prefix_never_a_record [OF h, of "[lit ''* a b built'']" "[]" "[]"] by simp
qed

text \<open>
  Claim C6, as the code has it: the third test is on the prefix of five dashes. A line
  whose trimmed form is not empty, does not start with \<^verbatim>\<open>Cratos Skills\<close>, does not start with
  five dashes and has at least four tokens gives the record whose name is the second
  token and whose origin is the fourth; the first and the third token and every token
  after the fourth are not read. The tokens of the trimmed line are those of the line.
\<close>

theorem parse_line_builds_record:
  assumes "strip raw \<noteq> []"
    and "\<not> startswith (strip raw) (lit ''Cratos Skills'')"
    and "\<not> startswith (strip raw) (lit ''-----'')"
    and "4 \<le> length (split (strip raw))"
  shows "parse_line raw = Some (SkillRecord (split (strip raw) ! 1) (split (strip raw) ! 3))
    \<and> split (strip raw) = split raw"
  using assms by (simp add: parse_line_def Let_def split_strip)

theorem parse_line_builds_record_witness:
  "strip (lit ''  * alpha core built extra  '') \<noteq> []
   \<and> \<not> startswith (strip (lit ''  * alpha core built extra  '')) (lit ''Cratos Skills'')
   \<and> \<not> startswith (strip (lit ''  * alpha core built extra  '')) (lit ''-----'')
   \<and> 4 \<le> length (split (strip (lit ''  * alpha core built extra  '')))
   \<and> parse_line (lit ''  * alpha core built extra  '') = Some (SkillRecord (lit ''alpha'') (lit ''built''))"
proof -
  let ?l = "lit ''  * alpha core built extra  ''"
  have s: "split (strip ?l) = [lit ''*'', lit ''alpha'', lit ''core'', lit ''built'', lit ''extra'']"
    by (simp add: strip_def split_def lit_def isspace_def)
  have h1: "strip ?l \<noteq> []" by (simp add: strip_def lit_def isspace_def)
  have h2: "\<not> startswith (strip ?l) (lit ''Cratos Skills'')"
    by (simp add: startswith_def strip_def lit_def isspace_def)
  have h3: "\<not> startswith (strip ?l) (lit ''-----'')"
    by (simp add: startswith_def strip_def lit_def isspace_def)
  have h4: "4 \<le> length (split (strip ?l))" by (simp add: s)
  from parse_line_builds_record [OF h1 h2 h3 h4]
  have "parse_line ?l = Some (SkillRecord (split (strip ?l) ! 1) (split (strip ?l) ! 3))"
    by (rule conjunct1)
  then have r: "parse_line ?l = Some (SkillRecord (lit ''alpha'') (lit ''built''))"
    by (simp add: s)
  show ?thesis using h1 h2 h3 h4 r by blast
qed

text \<open>
  Claim C6 as it is worded fails: the line below is not composed of dashes, has four
  tokens and passes the other two tests, and the loop skips it.
\<close>

theorem dash_prefixed_row_counterexample:
  "strip (lit ''----- alpha core built'') \<noteq> []
   \<and> \<not> startswith (strip (lit ''----- alpha core built'')) (lit ''Cratos Skills'')
   \<and> \<not> dash_separator (strip (lit ''----- alpha core built''))
   \<and> 4 \<le> length (split (strip (lit ''----- alpha core built'')))
   \<and> parse_line (lit ''----- alpha core built'') = None"
  by (simp add: parse_line_def dash_separator_def startswith_def strip_def split_def lit_def isspace_def)

text \<open>
  Claim C1, as the code has it: the parsing steps of the loop give exactly one record for
  each line of the text that passes the four tests of the code (the third one on the
  prefix of five dashes), in the order of the lines; every other line gives nothing.
\<close>

theorem parse_records_one_per_data_row:
  "parse_records (splitlines text) = map row_record (filter data_row (splitlines text))
   \<and> length (parse_records (splitlines text)) = length (filter data_row (splitlines text))"
  by (simp add: parse_records_filter)

text \<open>
  Claim C1 as it is worded fails: both lines below are well-formed rows in the words of
  the specification, and the second one gives no record.
\<close>

theorem parse_records_count_counterexample:
  "length (filter well_formed_row (splitlines (lit ''* alpha core built'' @ [10] @ lit ''-----> beta core built''))) = 2
   \<and> length (parse_records (splitlines (lit ''* alpha core built'' @ [10] @ lit ''-----> beta core built''))) = 1"
  by (simp add: parse_records_def parse_line_def well_formed_row_def dash_separator_def
      startswith_def strip_def split_def splitlines_def lit_def isspace_def is_linebreak_def)

section \<open>The selection of builtin skills\<close>

text \<open>
  Claim C2. For every sequence of records, lines 44 and 45 applied to the records in
  order select exactly the records whose origin is the string \<^verbatim>\<open>built\<close> (equality of
  strings: no case folding, no trimming), and the batch is their names: a subsequence of
  the input, in the order of the input, every record as often as it occurs. The loop of
  the script is this selection on the records of its lines.
\<close>

theorem origin_filter_subsequence:
  "fold append_if_built rs [] = map name (filter (\<lambda>r. origin r = lit ''built'') rs)
   \<and> subseq (filter (\<lambda>r. origin r = lit ''built'') rs) rs
   \<and> (\<forall>r \<in> set (filter (\<lambda>r. origin r = lit ''built'') rs). origin r = lit ''built'')
   \<and> count_list (fold append_if_built rs []) s =
       length (filter (\<lambda>r. name r = s \<and> origin r = lit ''built'') rs)
   \<and> collect_skills ls [] = fold append_if_built (parse_records ls) []"
proof -
  have a: "fold append_if_built rs [] = map name (filter (\<lambda>r. origin r = lit ''built'') rs)"
    by (simp add: fold_append_if_built)
  have b: "subseq (filter (\<lambda>r. origin r = lit ''built'') rs) rs" by simp
  have c: "\<forall>r \<in> set (filter (\<lambda>r. origin r = lit ''built'') rs). origin r = lit ''built''"
    by simp
  have d: "count_list (fold append_if_built rs []) s =
       length (filter (\<lambda>r. name r = s \<and> origin r = lit ''built'') rs)"
    unfolding a by (rule count_list_map_filter)
  have e: "collect_skills ls [] = fold append_if_built (parse_records ls) []"
    by (rule collect_skills_fold)
  show ?thesis using a b c d e by blast
qed

theorem origin_filter_subsequence_witness:
  "fold append_if_built
     [SkillRecord (lit ''alpha'') (lit ''built''), SkillRecord (lit ''beta'') (lit ''Built''),
      SkillRecord (lit ''alpha'') (lit ''built''), SkillRecord (lit ''gamma'') (lit ''built '')] []
   = [lit ''alpha'', lit ''alpha'']
   \<and> count_list (fold append_if_built
     [SkillRecord (lit ''alpha'') (lit ''built''), SkillRecord (lit ''beta'') (lit ''Built''),
      SkillRecord (lit ''alpha'') (lit ''built''), SkillRecord (lit ''gamma'') (lit ''built '')] [])
     (lit ''alpha'') = 2"
proof -
  let ?rs = "[SkillRecord (lit ''alpha'') (lit ''built''), SkillRecord (lit ''beta'') (lit ''Built''),
      SkillRecord (lit ''alpha'') (lit ''built''), SkillRecord (lit ''gamma'') (lit ''built '')]"
  have n: "lit ''Built'' \<noteq> lit ''built''" "lit ''built '' \<noteq> lit ''built''"
    by (simp_all add: lit_def)
  from origin_filter_subsequence [of ?rs "lit ''alpha''" "[]"]
  have "fold append_if_built ?rs [] = map name (filter (\<lambda>r. origin r = lit ''built'') ?rs)"
    and "count_list (fold append_if_built ?rs []) (lit ''alpha'') =
       length (filter (\<lambda>r. name r = lit ''alpha'' \<and> origin r = lit ''built'') ?rs)"
    by blast+
  then show ?thesis using n by simp
qed

text \<open>
  Claim C9. The pass over a text reads nothing but the text: what it appends does not
  depend on what the accumulator holds when it starts, so a second pass over the same
  text gives the same records and the same batch as the first one, also when it runs
  on the state that the first one left.
\<close>

theorem parse_pass_repeatable:
  "collect_skills (splitlines text) acc = acc @ skills_to_export text
   \<and> collect_skills (splitlines text) (skills_to_export text) =
       skills_to_export text @ skills_to_export text
   \<and> parse_records (splitlines text @ splitlines text) =
       parse_records (splitlines text) @ parse_records (splitlines text)
   \<and> collect_skills (splitlines text @ splitlines text) [] =
       skills_to_export text @ skills_to_export text"
  by (simp add: skills_to_export_def collect_skills_fold fold_append_if_built parse_records_append)

theorem parse_pass_repeatable_witness:
  "collect_skills (splitlines (lit ''* alpha core built'' @ [10] @ lit ''* beta core custom''))
     (skills_to_export (lit ''* alpha core built'' @ [10] @ lit ''* beta core custom''))
   = [lit ''alpha'', lit ''alpha'']"
proof -
  let ?t = "lit ''* alpha core built'' @ [10] @ lit ''* beta core custom''"
  have "skills_to_export ?t = [lit ''alpha'']"
    by (simp add: skills_to_export_def parse_line_def append_if_built_def startswith_def
        strip_def split_def splitlines_def lit_def isspace_def is_linebreak_def)
  then show ?thesis using parse_pass_repeatable [of ?t "[]"] by simp
qed

section \<open>The run of the script: auxiliary facts\<close>

lemma main_build_failed:
  "returncode (env 0 build_cmd) \<noteq> 0 \<Longrightarrow>
   main env = (Inl (CalledProcessError (returncode (env 0 build_cmd)) build_cmd),
               [Print (lit ''Building Cratos...''), Run build_cmd])"
  by (simp add: main_def subprocess_run_def)

lemma main_list_garbled:
  "returncode (env 0 build_cmd) = 0 \<Longrightarrow> \<not> decodes (env 1 list_cmd) \<Longrightarrow>
   main env = (Inl UnicodeDecodeError, query_events)"
  by (simp add: main_def subprocess_run_def query_events_def)

lemma main_list_failed:
  "returncode (env 0 build_cmd) = 0 \<Longrightarrow> decodes (env 1 list_cmd) \<Longrightarrow>
   returncode (env 1 list_cmd) \<noteq> 0 \<Longrightarrow>
   main env = (Inr (), query_events @
                 [Print (lit ''Error listing skills:''), Print (stderr (env 1 list_cmd))])"
  by (simp add: main_def subprocess_run_def query_events_def)

lemma main_listed:
  "returncode (env 0 build_cmd) = 0 \<Longrightarrow> decodes (env 1 list_cmd) \<Longrightarrow>
   returncode (env 1 list_cmd) = 0 \<Longrightarrow>
   main env =
     (case export_loop env (skills_to_export (stdout (env 1 list_cmd)))
             (query_events @
              [Print (found_line (length (skills_to_export (stdout (env 1 list_cmd)))))]) of
        (Inl e, tr) \<Rightarrow> (Inl e, tr)
      | (Inr u, tr) \<Rightarrow> (Inr (), tr @ [Print (lit ''Batch export complete.'')]))"
  by (simp add: main_def subprocess_run_def query_events_def found_line_def Let_def)

lemma runs_query_events: "runs query_events = [build_cmd, list_cmd]"
  by (simp add: query_events_def)

lemma export_loop_env_cong:
  "(\<And>n c. returncode (env' n c) = returncode (env n c)) \<Longrightarrow>
   export_loop env' batch tr = export_loop env batch tr"
  by (induction batch arbitrary: tr) (simp_all add: subprocess_run_def Let_def)

lemma main_env_cong:
  assumes rc: "\<And>n c. returncode (env' n c) = returncode (env n c)"
    and dec: "decodes (env' 1 list_cmd) = decodes (env 1 list_cmd)"
    and err: "stderr (env' 1 list_cmd) = stderr (env 1 list_cmd)"
    and sk: "skills_to_export (stdout (env' 1 list_cmd)) = skills_to_export (stdout (env 1 list_cmd))"
  shows "main env' = main env"
proof (cases "returncode (env 0 build_cmd) = 0")
  case False
  then show ?thesis using rc by (simp add: main_build_failed)
next
  case b: True
  show ?thesis
  proof (cases "decodes (env 1 list_cmd)")
    case False
    then show ?thesis using b rc dec by (simp add: main_list_garbled)
  next
    case d: True
    show ?thesis
    proof (cases "returncode (env 1 list_cmd) = 0")
      case False
      then show ?thesis using b d rc dec err by (simp add: main_list_failed)
    next
      case True
      then show ?thesis using b d rc dec sk export_loop_env_cong [of env' env, OF rc]
        by (simp add: main_listed)
    qed
  qed
qed

section \<open>The run of the script\<close>

lemma export_cmd_not_query: "export_cmd s \<noteq> build_cmd" "export_cmd s \<noteq> list_cmd"
  by (simp_all add: export_cmd_def build_cmd_def list_cmd_def)

lemma list_cmd_not_build: "list_cmd \<noteq> build_cmd"
  by (simp add: build_cmd_def list_cmd_def)

text \<open>
  Claim C4, as the code has it. In every run in which the list command is run and ends
  with a non-zero exit status, the build and the list command are the only child
  processes: no export is run and no line is parsed. When the captured output decodes,
  the two lines of lines 18 and 19 are printed, the second being the captured standard
  error, \<^verbatim>\<open>main()\<close> returns and the exit status of the script is 0. When it does not
  decode, \<^verbatim>\<open>UnicodeDecodeError\<close> leaves line 15 and \<^verbatim>\<open>main()\<close>: nothing more is printed and
  the exit status of the script is 1.
\<close>

theorem list_failure_outcome:
  assumes "Run list_cmd \<in> set (snd (main env))"
    and "returncode (env 1 list_cmd) \<noteq> 0"
  shows "runs (snd (main env)) = [build_cmd, list_cmd]
    \<and> export_cmd s \<notin> set (runs (snd (main env)))
    \<and> (decodes (env 1 list_cmd) \<longrightarrow>
          main env = (Inr (), query_events @
                       [Print (lit ''Error listing skills:''), Print (stderr (env 1 list_cmd))])
          \<and> exit_status (fst (main env)) = 0)
    \<and> (\<not> decodes (env 1 list_cmd) \<longrightarrow>
          main env = (Inl UnicodeDecodeError, query_events)
          \<and> exit_status (fst (main env)) = 1)"
proof -
  have b: "returncode (env 0 build_cmd) = 0"
  proof (rule ccontr)
    assume "returncode (env 0 build_cmd) \<noteq> 0"
    then have "snd (main env) = [Print (lit ''Building Cratos...''), Run build_cmd]"
      by (simp add: main_build_failed)
    then show False using assms(1) list_cmd_not_build by simp
  qed
  show ?thesis
  proof (cases "decodes (env 1 list_cmd)")
    case True
    have m: "main env = (Inr (), query_events @
                       [Print (lit ''Error listing skills:''), Print (stderr (env 1 list_cmd))])"
      using b True assms(2) by (rule main_list_failed)
    show ?thesis
      unfolding m using True export_cmd_not_query [of s]
      by (simp add: runs_append runs_query_events exit_status_def)
  next
    case False
    have m: "main env = (Inl UnicodeDecodeError, query_events)"
      using b False by (rule main_list_garbled)
    show ?thesis
      unfolding m using False export_cmd_not_query [of s]
      by (simp add: runs_query_events exit_status_def)
  qed
qed

theorem list_failure_outcome_witness:
  "Run list_cmd \<in> set (snd (main (fails_at 1 2 [] (lit ''boom''))))
   \<and> returncode (fails_at 1 2 [] (lit ''boom'') 1 list_cmd) \<noteq> 0
   \<and> decodes (fails_at 1 2 [] (lit ''boom'') 1 list_cmd)
   \<and> main (fails_at 1 2 [] (lit ''boom'')) =
       (Inr (), [Print (lit ''Building Cratos...''), Run build_cmd,
                 Print (lit ''Fetching active skills...''), Run list_cmd,
                 Print (lit ''Error listing skills:''), Print (lit ''boom'')])
   \<and> exit_status (fst (main (fails_at 1 2 [] (lit ''boom'')))) = 0
   \<and> Run list_cmd \<in> set (snd (main (garbled_at 1 2)))
   \<and> returncode (garbled_at 1 2 1 list_cmd) \<noteq> 0
   \<and> \<not> decodes (garbled_at 1 2 1 list_cmd)
   \<and> runs (snd (main (garbled_at 1 2))) = [build_cmd, list_cmd]
   \<and> exit_status (fst (main (garbled_at 1 2))) = 1"
proof -
  let ?env = "fails_at 1 2 [] (lit ''boom'')"
  have h1: "Run list_cmd \<in> set (snd (main ?env))"
    by (simp add: main_def subprocess_run_def fails_at_def)
  have h2: "returncode (?env 1 list_cmd) \<noteq> 0" by (simp add: fails_at_def)
  have d: "decodes (?env 1 list_cmd)" by (simp add: fails_at_def)
  have e: "stderr (?env 1 list_cmd) = lit ''boom''" by (simp add: fails_at_def)
  from list_failure_outcome [OF h1 h2, of "[]"] d
  have "main ?env = (Inr (), query_events @
                       [Print (lit ''Error listing skills:''), Print (stderr (?env 1 list_cmd))])"
    and "exit_status (fst (main ?env)) = 0"
    by blast+
  then have first: "main ?env =
       (Inr (), [Print (lit ''Building Cratos...''), Run build_cmd,
                 Print (lit ''Fetching active skills...''), Run list_cmd,
                 Print (lit ''Error listing skills:''), Print (lit ''boom'')])
     \<and> exit_status (fst (main ?env)) = 0"
    unfolding e by (simp add: query_events_def)
  let ?bad = "garbled_at 1 2"
  have g1: "Run list_cmd \<in> set (snd (main ?bad))"
    by (simp add: main_def subprocess_run_def garbled_at_def)
  have g2: "returncode (?bad 1 list_cmd) \<noteq> 0" by (simp add: garbled_at_def)
  have g3: "\<not> decodes (?bad 1 list_cmd)" by (simp add: garbled_at_def)
  from list_failure_outcome [OF g1 g2, of "[]"] g3
  have second: "runs (snd (main ?bad)) = [build_cmd, list_cmd]
     \<and> exit_status (fst (main ?bad)) = 1"
    by blast
  show ?thesis using h1 h2 d first g1 g2 g3 second by blast
qed

text \<open>
  Claim C4 as it is worded fails: the list command below ends with exit status 2 and
  writes bytes that do not decode. Line 15 raises, so nothing is printed after the
  progress line of line 13, the captured standard error is not printed, \<^verbatim>\<open>main()\<close> does
  not return and the exit status of the script is 1.
\<close>

theorem list_failure_garbled_counterexample:
  "Run list_cmd \<in> set (snd (main (garbled_at 1 2)))
   \<and> returncode (garbled_at 1 2 1 list_cmd) = 2
   \<and> main (garbled_at 1 2) =
       (Inl UnicodeDecodeError,
        [Print (lit ''Building Cratos...''), Run build_cmd,
         Print (lit ''Fetching active skills...''), Run list_cmd])
   \<and> exit_status (fst (main (garbled_at 1 2))) = 1"
  by (simp add: main_def subprocess_run_def garbled_at_def exit_status_def)

text \<open>
  Claim C3. When the export of the \<open>k\<close>-th skill of a batch (counted from 1) ends with a
  non-zero exit status and the exports before it ended with 0, the loop runs exactly the
  first \<open>k\<close> exports, in order, and nothing else: the exception leaves the loop at once,
  no later skill is tried and nothing is run to undo the exports already made. In
  \<^verbatim>\<open>main()\<close> the loop starts after the build and the list command (both ended with 0 and
  the listing was decoded, or there is no batch), and the exception ends the run.
\<close>

theorem export_failure_stops_batch:
  assumes "1 \<le> k" and "k \<le> length batch"
    and "\<forall>i. Suc i < k \<longrightarrow> returncode (env (length (runs tr) + i) (export_cmd (batch ! i))) = 0"
    and "returncode (env (length (runs tr) + (k - 1)) (export_cmd (batch ! (k - 1)))) \<noteq> 0"
  shows "export_loop env batch tr =
       (Inl (CalledProcessError
               (returncode (env (length (runs tr) + (k - 1)) (export_cmd (batch ! (k - 1)))))
               (export_cmd (batch ! (k - 1)))),
        tr @ export_events (take k batch))
    \<and> runs (snd (export_loop env batch tr)) = runs tr @ map export_cmd (take k batch)
    \<and> length (runs (snd (export_loop env batch tr))) = length (runs tr) + k
    \<and> (returncode (env 0 build_cmd) = 0 \<and> decodes (env 1 list_cmd)
        \<and> returncode (env 1 list_cmd) = 0
        \<and> batch = skills_to_export (stdout (env 1 list_cmd))
        \<and> tr = query_events @ [Print (found_line (length batch))]
        \<longrightarrow> main env = export_loop env batch tr
          \<and> runs (snd (main env)) = [build_cmd, list_cmd] @ map export_cmd (take k batch))"
proof -
  have a: "export_loop env batch tr =
       (Inl (CalledProcessError
               (returncode (env (length (runs tr) + (k - 1)) (export_cmd (batch ! (k - 1)))))
               (export_cmd (batch ! (k - 1)))),
        tr @ export_events (take k batch))"
    using assms by (intro export_loop_fails_at) simp_all
  have b: "runs (snd (export_loop env batch tr)) = runs tr @ map export_cmd (take k batch)"
    unfolding a by (simp add: runs_append runs_export_events)
  have c: "length (runs (snd (export_loop env batch tr))) = length (runs tr) + k"
    unfolding b using assms(2) by simp
  have d: "main env = export_loop env batch tr
        \<and> runs (snd (main env)) = [build_cmd, list_cmd] @ map export_cmd (take k batch)"
    if "returncode (env 0 build_cmd) = 0" "decodes (env 1 list_cmd)"
      "returncode (env 1 list_cmd) = 0"
      "batch = skills_to_export (stdout (env 1 list_cmd))"
      "tr = query_events @ [Print (found_line (length batch))]"
  proof -
    have "main env = export_loop env batch tr"
      using that a by (simp add: main_listed)
    then show ?thesis using b that(5) by (simp add: runs_append runs_query_events)
  qed
  show ?thesis using a b c d by blast
qed

theorem export_failure_stops_batch_witness:
  "fst (main (fails_at 3 1 (lit ''* a x built'' @ [10] @ lit ''* b x built'' @ [10] @ lit ''* c x built'') []))
     = Inl (CalledProcessError 1 (export_cmd (lit ''b'')))
   \<and> runs (snd (main (fails_at 3 1 (lit ''* a x built'' @ [10] @ lit ''* b x built'' @ [10] @ lit ''* c x built'') [])))
     = [build_cmd, list_cmd, export_cmd (lit ''a''), export_cmd (lit ''b'')]"
proof -
  let ?text = "lit ''* a x built'' @ [10] @ lit ''* b x built'' @ [10] @ lit ''* c x built''"
  let ?env = "fails_at 3 1 ?text []"
  let ?batch = "[lit ''a'', lit ''b'', lit ''c'']"
  let ?tr = "query_events @ [Print (found_line (length ?batch))]"
  have sk: "skills_to_export ?text = ?batch"
    by (simp add: skills_to_export_def parse_line_def append_if_built_def startswith_def
        strip_def split_def splitlines_def lit_def isspace_def is_linebreak_def)
  have n: "length (runs ?tr) = 2" by (simp add: runs_append runs_query_events)
  have h1: "1 \<le> (2::nat)" by simp
  have h2: "2 \<le> length ?batch" by simp
  have h3: "\<forall>i. Suc i < 2 \<longrightarrow>
      returncode (?env (length (runs ?tr) + i) (export_cmd (?batch ! i))) = 0"
    unfolding n by (simp add: fails_at_def)
  have h4: "returncode (?env (length (runs ?tr) + (2 - 1)) (export_cmd (?batch ! (2 - 1)))) \<noteq> 0"
    unfolding n by (simp add: fails_at_def)
  have rc: "returncode (?env (length (runs ?tr) + (2 - 1)) (export_cmd (?batch ! (2 - 1)))) = 1"
    unfolding n by (simp add: fails_at_def)
  have m: "returncode (?env 0 build_cmd) = 0 \<and> decodes (?env 1 list_cmd)
      \<and> returncode (?env 1 list_cmd) = 0
      \<and> ?batch = skills_to_export (stdout (?env 1 list_cmd))
      \<and> ?tr = query_events @ [Print (found_line (length ?batch))]"
    using sk by (simp add: fails_at_def)
  from export_failure_stops_batch [OF h1 h2 h3 h4] m
  have "main ?env = export_loop ?env ?batch ?tr"
    and "runs (snd (main ?env)) = [build_cmd, list_cmd] @ map export_cmd (take 2 ?batch)"
    and "export_loop ?env ?batch ?tr =
       (Inl (CalledProcessError
               (returncode (?env (length (runs ?tr) + (2 - 1)) (export_cmd (?batch ! (2 - 1)))))
               (export_cmd (?batch ! (2 - 1)))),
        ?tr @ export_events (take 2 ?batch))"
    by blast+
  then show ?thesis unfolding rc by simp
qed

lemma export_events_Nil: "export_events ss = [] \<longleftrightarrow> ss = []"
  by (cases ss) simp_all

lemma last_export_events:
  "ss \<noteq> [] \<Longrightarrow> last (tr @ export_events ss) = Run (export_cmd (last ss))"
  by (induction ss arbitrary: tr) (simp_all add: export_events_Nil)

text \<open>
  Claim C5, as the code has it. The commands run with \<^verbatim>\<open>check=True\<close> are the build, child
  number 0 of the run, and the exports, children number 2 and up (child number 1 is the
  list command). When such a child ends with a non-zero exit status, the exception
  \<^verbatim>\<open>CalledProcessError\<close> with that status and that command leaves \<^verbatim>\<open>main()\<close>: the child is
  the last thing the run does, nothing is retried and nothing runs after it. The
  exception is not caught, so the exit status of the script is 1, whatever the status of
  the child was.
\<close>

theorem strict_failure_raises:
  assumes "n < length (runs (snd (main env)))" and "n \<noteq> 1"
    and "returncode (env n (runs (snd (main env)) ! n)) \<noteq> 0"
  shows "fst (main env) =
       Inl (CalledProcessError (returncode (env n (runs (snd (main env)) ! n)))
              (runs (snd (main env)) ! n))
    \<and> last (snd (main env)) = Run (runs (snd (main env)) ! n)
    \<and> Suc n = length (runs (snd (main env)))
    \<and> exit_status (fst (main env)) = 1"
proof (cases "returncode (env 0 build_cmd) = 0")
  case False
  have m: "main env = (Inl (CalledProcessError (returncode (env 0 build_cmd)) build_cmd),
               [Print (lit ''Building Cratos...''), Run build_cmd])"
    using False by (rule main_build_failed)
  have "n = 0" using assms(1) unfolding m by simp
  then show ?thesis unfolding m by (simp add: exit_status_def)
next
  case b: True
  consider (garbled) "\<not> decodes (env 1 list_cmd)"
    | (failed) "decodes (env 1 list_cmd)" "returncode (env 1 list_cmd) \<noteq> 0"
    | (listed) "decodes (env 1 list_cmd)" "returncode (env 1 list_cmd) = 0"
    by blast
  then show ?thesis
  proof cases
    case garbled
    have m: "main env = (Inl UnicodeDecodeError, query_events)"
      using b garbled by (rule main_list_garbled)
    have "n = 0" using assms(1,2) unfolding m by (simp add: runs_query_events)
    then have "returncode (env n (runs (snd (main env)) ! n)) = 0"
      unfolding m using b by (simp add: runs_query_events)
    then show ?thesis using assms(3) by simp
  next
    case failed
    have m: "main env = (Inr (), query_events @
                 [Print (lit ''Error listing skills:''), Print (stderr (env 1 list_cmd))])"
      using b failed by (rule main_list_failed)
    have "n = 0" using assms(1,2) unfolding m by (simp add: runs_append runs_query_events)
    then have "returncode (env n (runs (snd (main env)) ! n)) = 0"
      unfolding m using b by (simp add: runs_append runs_query_events)
    then show ?thesis using assms(3) by simp
  next
    case listed
    let ?batch = "skills_to_export (stdout (env 1 list_cmd))"
    let ?tr = "query_events @ [Print (found_line (length ?batch))]"
    let ?r = "export_loop env ?batch ?tr"
    have m: "main env = (case ?r of (Inl e, tr) \<Rightarrow> (Inl e, tr)
        | (Inr u, tr) \<Rightarrow> (Inr (), tr @ [Print (lit ''Batch export complete.'')]))"
      using b listed by (rule main_listed)
    have len: "length (runs ?tr) = 2" by (simp add: runs_append runs_query_events)
    from export_loop_shape [of ?batch env ?tr] obtain m where mle: "m \<le> length ?batch"
      and tr: "snd ?r = ?tr @ export_events (take m ?batch)"
      and ok: "\<forall>i. Suc i < m \<longrightarrow> returncode (env (2 + i) (export_cmd (?batch ! i))) = 0"
      and res: "case fst ?r of
          Inr u \<Rightarrow> m = length ?batch
                 \<and> (\<forall>i < m. returncode (env (2 + i) (export_cmd (?batch ! i))) = 0)
        | Inl e \<Rightarrow> 0 < m
                 \<and> returncode (env (2 + (m - 1)) (export_cmd (?batch ! (m - 1)))) \<noteq> 0
                 \<and> e = CalledProcessError
                          (returncode (env (2 + (m - 1)) (export_cmd (?batch ! (m - 1)))))
                          (export_cmd (?batch ! (m - 1)))"
      unfolding len by blast
    have rs: "runs (snd (main env)) = [build_cmd, list_cmd] @ map export_cmd (take m ?batch)"
      unfolding m using tr
      by (cases ?r; cases "fst ?r") (auto simp: runs_append runs_query_events runs_export_events)
    have n2: "2 \<le> n"
    proof (rule ccontr)
      assume "\<not> 2 \<le> n"
      then have "n = 0" using assms(2) by simp
      then show False using assms(3) b unfolding rs by simp
    qed
    then obtain i where i: "n = 2 + i" using le_Suc_ex by blast
    have im: "i < m" using assms(1) mle unfolding rs i by simp
    have cmd: "runs (snd (main env)) ! (2 + i) = export_cmd (?batch ! i)"
      unfolding rs using im mle by (simp add: nth_append)
    have bad: "returncode (env (2 + i) (export_cmd (?batch ! i))) \<noteq> 0"
      using assms(3) unfolding i cmd .
    have last_i: "Suc i = m"
    proof (rule ccontr)
      assume "Suc i \<noteq> m"
      then have "Suc i < m" using im by simp
      then show False using ok bad by blast
    qed
    then have i': "i = m - 1" by simp
    show ?thesis
    proof (cases "fst ?r")
      case (Inr u)
      then have "returncode (env (2 + i) (export_cmd (?batch ! i))) = 0"
        using res im by simp
      then show ?thesis using bad by simp
    next
      case (Inl e)
      then have e: "e = CalledProcessError
                          (returncode (env (2 + i) (export_cmd (?batch ! i))))
                          (export_cmd (?batch ! i))"
        using res unfolding i' by simp
      have r: "?r = (Inl e, ?tr @ export_events (take m ?batch))"
        using Inl tr by (cases ?r) simp
      have mm: "main env = (Inl e, ?tr @ export_events (take m ?batch))"
        unfolding m r by simp
      have il: "i < length ?batch" using last_i mle by simp
      have tk0: "take m ?batch = take i ?batch @ [?batch ! i]"
        unfolding last_i [symmetric] using il by (rule take_Suc_conv_app_nth)
      have tk: "take m ?batch \<noteq> []" "last (take m ?batch) = ?batch ! i"
        unfolding tk0 by simp_all
      have l: "last (snd (main env)) = Run (export_cmd (?batch ! i))"
        unfolding mm using last_export_events [OF tk(1), of ?tr] tk(2) by simp
      have c: "Suc n = length (runs (snd (main env)))"
        unfolding rs i using last_i mle by simp
      show ?thesis
        using l c unfolding i cmd by (simp add: mm e exit_status_def)
    qed
  qed
qed

theorem strict_failure_raises_witness:
  "fst (main (fails_at 2 3 (lit ''* a x built'') [])) =
     Inl (CalledProcessError 3 (export_cmd (lit ''a'')))
   \<and> last (snd (main (fails_at 2 3 (lit ''* a x built'') []))) = Run (export_cmd (lit ''a''))
   \<and> exit_status (fst (main (fails_at 2 3 (lit ''* a x built'') []))) = 1"
proof -
  let ?env = "fails_at 2 3 (lit ''* a x built'') []"
  have sk: "skills_to_export (lit ''* a x built'') = [lit ''a'']"
    by (simp add: skills_to_export_def parse_line_def append_if_built_def startswith_def
        strip_def split_def splitlines_def lit_def isspace_def is_linebreak_def)
  have rs: "runs (snd (main ?env)) = [build_cmd, list_cmd, export_cmd (lit ''a'')]"
    by (simp add: main_def subprocess_run_def fails_at_def sk Let_def)
  have h1: "2 < length (runs (snd (main ?env)))" unfolding rs by simp
  have h2: "(2::nat) \<noteq> 1" by simp
  have c: "runs (snd (main ?env)) ! 2 = export_cmd (lit ''a'')" unfolding rs by simp
  have rc: "returncode (?env 2 (export_cmd (lit ''a''))) = 3" by (simp add: fails_at_def)
  have h3: "returncode (?env 2 (runs (snd (main ?env)) ! 2)) \<noteq> 0" unfolding c rc by simp
  show ?thesis using strict_failure_raises [OF h1 h2 h3] unfolding c rc by blast
qed

text \<open>
  Claim C5 as it is worded fails: when the build ends with exit status 2, the script ends
  with exit status 1, not with the status of the child.
\<close>

theorem strict_exit_status_counterexample:
  "returncode (fails_at 0 2 [] [] 0 build_cmd) = 2
   \<and> fst (main (fails_at 0 2 [] [])) = Inl (CalledProcessError 2 build_cmd)
   \<and> exit_status (fst (main (fails_at 0 2 [] []))) = 1"
  by (simp add: main_def subprocess_run_def fails_at_def exit_status_def)

lemma scenario_batch:
  "skills_to_export scenario_listing = [lit ''alpha'', lit ''gamma'']"
  "skills_to_export (scenario_listing @ [10]) = [lit ''alpha'', lit ''gamma'']"
  by (simp_all add: scenario_listing_def skills_to_export_def parse_line_def append_if_built_def
      startswith_def strip_def split_def splitlines_def lit_def isspace_def is_linebreak_def)

lemma cratos_args_export:
  "cratos_args (export_cmd s) = [lit ''skill'', lit ''export'', lit ''--markdown'', s]"
  by (simp add: cratos_args_def export_cmd_def lit_def)

text \<open>
  Claim C8, as the code has it. The build and the list command end with exit status 0
  and the list command writes the five lines of the scenario, with or without a final
  line feed. Then the batch is \<^verbatim>\<open>alpha\<close>, \<^verbatim>\<open>gamma\<close>, in this order. When the export of
  \<^verbatim>\<open>alpha\<close> ends with 0, the run has exactly two export processes after the build and the
  list command, the \<^verbatim>\<open>cratos\<close> binary receiving \<^verbatim>\<open>skill export --markdown\<close> and the name
  each time. When it ends with another status, the export of \<^verbatim>\<open>alpha\<close> is the only one.
\<close>

theorem scenario_exports_alpha_gamma:
  assumes "returncode (env 0 build_cmd) = 0" and "decodes (env 1 list_cmd)"
    and "returncode (env 1 list_cmd) = 0"
    and "stdout (env 1 list_cmd) = scenario_listing
         \<or> stdout (env 1 list_cmd) = scenario_listing @ [10]"
  shows "skills_to_export (stdout (env 1 list_cmd)) = [lit ''alpha'', lit ''gamma'']
    \<and> (returncode (env 2 (export_cmd (lit ''alpha''))) = 0 \<longrightarrow>
          runs (snd (main env)) =
            [build_cmd, list_cmd, export_cmd (lit ''alpha''), export_cmd (lit ''gamma'')]
          \<and> map cratos_args (drop 2 (runs (snd (main env)))) =
            [[lit ''skill'', lit ''export'', lit ''--markdown'', lit ''alpha''],
             [lit ''skill'', lit ''export'', lit ''--markdown'', lit ''gamma'']])
    \<and> (returncode (env 2 (export_cmd (lit ''alpha''))) \<noteq> 0 \<longrightarrow>
          runs (snd (main env)) = [build_cmd, list_cmd, export_cmd (lit ''alpha'')])"
proof -
  have sk: "skills_to_export (stdout (env 1 list_cmd)) = [lit ''alpha'', lit ''gamma'']"
    using assms(4) scenario_batch by auto
  let ?tr = "query_events @ [Print (found_line (length [lit ''alpha'', lit ''gamma'']))]"
  have m: "main env =
     (case export_loop env [lit ''alpha'', lit ''gamma''] ?tr of
        (Inl e, tr) \<Rightarrow> (Inl e, tr)
      | (Inr u, tr) \<Rightarrow> (Inr (), tr @ [Print (lit ''Batch export complete.'')]))"
    using main_listed [OF assms(1,2,3)] unfolding sk .
  have n: "length (runs ?tr) = 2" by (simp add: runs_append runs_query_events)
  have two: "runs (snd (main env)) =
        [build_cmd, list_cmd, export_cmd (lit ''alpha''), export_cmd (lit ''gamma'')]"
    if ok: "returncode (env 2 (export_cmd (lit ''alpha''))) = 0"
  proof -
    have a: "export_loop env [lit ''alpha'', lit ''gamma''] ?tr =
        export_loop env [lit ''gamma''] (?tr @ export_events [lit ''alpha''])"
      using ok n by (intro export_loop_head_ok) simp
    show ?thesis
      unfolding m a
      by (simp add: subprocess_run_def Let_def runs_append runs_query_events)
  qed
  have one: "runs (snd (main env)) = [build_cmd, list_cmd, export_cmd (lit ''alpha'')]"
    if bad: "returncode (env 2 (export_cmd (lit ''alpha''))) \<noteq> 0"
  proof -
    have "returncode (env (length (runs ?tr)) (export_cmd (lit ''alpha''))) \<noteq> 0"
      using bad n by simp
    then have a: "export_loop env [lit ''alpha'', lit ''gamma''] ?tr =
        (Inl (CalledProcessError
                (returncode (env (length (runs ?tr)) (export_cmd (lit ''alpha''))))
                (export_cmd (lit ''alpha''))),
         ?tr @ export_events [lit ''alpha''])"
      by (rule export_loop_head_fail)
    show ?thesis
      unfolding m a by (simp add: runs_append runs_query_events)
  qed
  show ?thesis using sk two one by (simp add: cratos_args_export)
qed

theorem scenario_exports_alpha_gamma_witness:
  "returncode (fails_at 0 0 scenario_listing [] 0 build_cmd) = 0
   \<and> decodes (fails_at 0 0 scenario_listing [] 1 list_cmd)
   \<and> stdout (fails_at 0 0 scenario_listing [] 1 list_cmd) = scenario_listing
   \<and> skills_to_export scenario_listing = [lit ''alpha'', lit ''gamma'']
   \<and> returncode (fails_at 0 0 scenario_listing [] 2 (export_cmd (lit ''alpha''))) = 0
   \<and> runs (snd (main (fails_at 0 0 scenario_listing []))) =
        [build_cmd, list_cmd, export_cmd (lit ''alpha''), export_cmd (lit ''gamma'')]
   \<and> returncode (fails_at 2 7 scenario_listing [] 2 (export_cmd (lit ''alpha''))) \<noteq> 0
   \<and> runs (snd (main (fails_at 2 7 scenario_listing []))) =
        [build_cmd, list_cmd, export_cmd (lit ''alpha'')]"
proof -
  let ?env = "fails_at 0 0 scenario_listing []"
  have h1: "returncode (?env 0 build_cmd) = 0" by (simp add: fails_at_def)
  have h2: "decodes (?env 1 list_cmd)" by (simp add: fails_at_def)
  have h3: "returncode (?env 1 list_cmd) = 0" by (simp add: fails_at_def)
  have o: "stdout (?env 1 list_cmd) = scenario_listing" by (simp add: fails_at_def)
  then have h4: "stdout (?env 1 list_cmd) = scenario_listing
         \<or> stdout (?env 1 list_cmd) = scenario_listing @ [10]" by (rule disjI1)
  have h5: "returncode (?env 2 (export_cmd (lit ''alpha''))) = 0" by (simp add: fails_at_def)
  from scenario_exports_alpha_gamma [OF h1 h2 h3 h4] h5
  have "skills_to_export (stdout (?env 1 list_cmd)) = [lit ''alpha'', lit ''gamma'']"
    and "runs (snd (main ?env)) =
        [build_cmd, list_cmd, export_cmd (lit ''alpha''), export_cmd (lit ''gamma'')]"
    by blast+
  then have first: "skills_to_export scenario_listing = [lit ''alpha'', lit ''gamma'']
     \<and> runs (snd (main ?env)) =
        [build_cmd, list_cmd, export_cmd (lit ''alpha''), export_cmd (lit ''gamma'')]"
    unfolding o by simp
  let ?bad = "fails_at 2 7 scenario_listing []"
  have g1: "returncode (?bad 0 build_cmd) = 0" by (simp add: fails_at_def)
  have g2: "decodes (?bad 1 list_cmd)" by (simp add: fails_at_def)
  have g3: "returncode (?bad 1 list_cmd) = 0" by (simp add: fails_at_def)
  have "stdout (?bad 1 list_cmd) = scenario_listing" by (simp add: fails_at_def)
  then have g4: "stdout (?bad 1 list_cmd) = scenario_listing
         \<or> stdout (?bad 1 list_cmd) = scenario_listing @ [10]" by (rule disjI1)
  have g5: "returncode (?bad 2 (export_cmd (lit ''alpha''))) \<noteq> 0" by (simp add: fails_at_def)
  from scenario_exports_alpha_gamma [OF g1 g2 g3 g4] g5
  have second: "runs (snd (main ?bad)) = [build_cmd, list_cmd, export_cmd (lit ''alpha'')]"
    by blast
  show ?thesis using h1 h2 o h5 first g5 second by blast
qed

text \<open>
  Claim C8 as it is worded fails: with the listing of the scenario, the build and the
  list command ending with 0 and the export of \<^verbatim>\<open>alpha\<close> ending with 1, line 52 raises
  after one export, so one export process runs, not two.
\<close>

theorem scenario_alpha_fails_counterexample:
  "returncode (fails_at 2 1 scenario_listing [] 0 build_cmd) = 0
   \<and> returncode (fails_at 2 1 scenario_listing [] 1 list_cmd) = 0
   \<and> stdout (fails_at 2 1 scenario_listing [] 1 list_cmd) = scenario_listing
   \<and> skills_to_export scenario_listing = [lit ''alpha'', lit ''gamma'']
   \<and> runs (snd (main (fails_at 2 1 scenario_listing []))) =
        [build_cmd, list_cmd, export_cmd (lit ''alpha'')]"
  by (simp add: main_def subprocess_run_def fails_at_def scenario_batch Let_def)

text \<open>
  Claim C7. A line gives a record only when it has at least four tokens. A line of fewer
  than four tokens, a blank line, a line that starts with the header \<^verbatim>\<open>Cratos Skills\<close> and
  a line composed of dashes give none. A line that gives no record leaves no trace: the
  loop does on the listing with the line what it does on the listing without it, and two
  runs whose lists differ in that line alone (the children ending the same way, the two
  listings decoding alike) print and run exactly the same, so no warning and no count of
  dropped rows is emitted.
\<close>

theorem malformed_rows_dropped_silently:
  "(parse_line raw = Some r \<longrightarrow> 4 \<le> length (split raw) \<and> r = row_record raw)
   \<and> (length (split raw) < 4 \<longrightarrow> parse_line raw = None)
   \<and> (strip raw = [] \<longrightarrow> parse_line raw = None)
   \<and> (startswith (strip raw) (lit ''Cratos Skills'') \<longrightarrow> parse_line raw = None)
   \<and> (dash_separator (strip raw) \<longrightarrow> parse_line raw = None)
   \<and> (parse_line raw = None \<longrightarrow>
        parse_records (xs @ raw # ys) = parse_records (xs @ ys)
        \<and> collect_skills (xs @ raw # ys) acc = collect_skills (xs @ ys) acc)
   \<and> (parse_line raw = None
        \<and> (\<forall>n c. returncode (env' n c) = returncode (env n c))
        \<and> decodes (env' 1 list_cmd) = decodes (env 1 list_cmd)
        \<and> stderr (env' 1 list_cmd) = stderr (env 1 list_cmd)
        \<and> splitlines (stdout (env 1 list_cmd)) = xs @ raw # ys
        \<and> splitlines (stdout (env' 1 list_cmd)) = xs @ ys
        \<longrightarrow> main env' = main env)"
proof -
  have a: "4 \<le> length (split raw) \<and> r = row_record raw" if "parse_line raw = Some r"
    using that by (simp add: parse_line_Some_iff data_row_def split_strip)
  have b: "parse_line raw = None" if "length (split raw) < 4"
    using that by (simp add: parse_line_None_iff data_row_def split_strip)
  have c: "parse_line raw = None" if "strip raw = []"
    using that by (simp add: parse_line_None_iff data_row_def)
  have d: "parse_line raw = None" if "startswith (strip raw) (lit ''Cratos Skills'')"
    using that by (simp add: parse_line_None_iff data_row_def)
  have e: "parse_line raw = None" if "dash_separator (strip raw)"
    using dash_separator_split [OF that] by (simp add: parse_line_None_iff data_row_def)
  have f: "parse_records (xs @ raw # ys) = parse_records (xs @ ys)
        \<and> collect_skills (xs @ raw # ys) acc = collect_skills (xs @ ys) acc"
    if "parse_line raw = None" for acc
    using that by (simp add: collect_skills_fold parse_records_append) (simp add: parse_records_def)
  have g: "main env' = main env"
    if "parse_line raw = None" "\<forall>n c. returncode (env' n c) = returncode (env n c)"
      "decodes (env' 1 list_cmd) = decodes (env 1 list_cmd)"
      "stderr (env' 1 list_cmd) = stderr (env 1 list_cmd)"
      "splitlines (stdout (env 1 list_cmd)) = xs @ raw # ys"
      "splitlines (stdout (env' 1 list_cmd)) = xs @ ys"
  proof -
    have "skills_to_export (stdout (env' 1 list_cmd)) = skills_to_export (stdout (env 1 list_cmd))"
      using f [OF that(1), of "[]"] that(5,6) by (simp add: skills_to_export_def)
    then show ?thesis using that(2,3,4) by (intro main_env_cong) simp_all
  qed
  show ?thesis using a b c d e f g by blast
qed

theorem malformed_rows_dropped_silently_witness:
  "parse_line (lit ''* delta core'') = None
   \<and> parse_line (lit ''   '') = None
   \<and> parse_line (lit ''Cratos Skills (active)'') = None
   \<and> parse_line (lit ''---'') = None
   \<and> 4 \<le> length (split (lit ''* alpha core built''))
   \<and> main (fails_at 0 0 (lit ''* a x built'') []) =
       main (fails_at 0 0 (lit ''* a x built'' @ [10] @ lit ''* delta core'') [])"
proof -
  have "length (split (lit ''* delta core'')) < 4"
    by (simp add: split_def lit_def isspace_def)
  with malformed_rows_dropped_silently [where raw = "lit ''* delta core''"]
  have short: "parse_line (lit ''* delta core'') = None" by blast
  have "strip (lit ''   '') = []" by (simp add: strip_def lit_def isspace_def)
  with malformed_rows_dropped_silently [where raw = "lit ''   ''"]
  have blank: "parse_line (lit ''   '') = None" by blast
  have "startswith (strip (lit ''Cratos Skills (active)'')) (lit ''Cratos Skills'')"
    by (simp add: startswith_def strip_def lit_def isspace_def)
  with malformed_rows_dropped_silently [where raw = "lit ''Cratos Skills (active)''"]
  have header: "parse_line (lit ''Cratos Skills (active)'') = None" by blast
  have "dash_separator (strip (lit ''---''))"
    by (simp add: dash_separator_def strip_def lit_def isspace_def)
  with malformed_rows_dropped_silently [where raw = "lit ''---''"]
  have dashes: "parse_line (lit ''---'') = None" by blast
  have "parse_line (lit ''* alpha core built'') = Some (SkillRecord (lit ''alpha'') (lit ''built''))"
    by (simp add: parse_line_def startswith_def strip_def split_def lit_def isspace_def)
  with malformed_rows_dropped_silently [where raw = "lit ''* alpha core built''"
      and r = "SkillRecord (lit ''alpha'') (lit ''built'')"]
  have row: "4 \<le> length (split (lit ''* alpha core built''))" by blast
  let ?env = "fails_at 0 0 (lit ''* a x built'' @ [10] @ lit ''* delta core'') []"
  let ?env' = "fails_at 0 0 (lit ''* a x built'') []"
  have h1: "\<forall>n c. returncode (?env' n c) = returncode (?env n c)"
    by (simp add: fails_at_def)
  have h2: "stderr (?env' 1 list_cmd) = stderr (?env 1 list_cmd)"
    "decodes (?env' 1 list_cmd) = decodes (?env 1 list_cmd)"
    by (simp_all add: fails_at_def)
  have h3: "splitlines (stdout (?env 1 list_cmd)) = [lit ''* a x built''] @ lit ''* delta core'' # []"
    by (simp add: fails_at_def splitlines_def lit_def is_linebreak_def)
  have h4: "splitlines (stdout (?env' 1 list_cmd)) = [lit ''* a x built''] @ []"
    by (simp add: fails_at_def splitlines_def lit_def is_linebreak_def)
  from malformed_rows_dropped_silently [where raw = "lit ''* delta core''"
      and xs = "[lit ''* a x built'']" and ys = "[]" and env = ?env and env' = ?env']
    short h1 h2 h3 h4
  have same: "main ?env' = main ?env" by blast
  show ?thesis using short blank header dashes row same by blast
qed

end
